theory Spec2Isabelle
  imports Complex_Main "HOL-Library.Word"
begin

section \<open>Values shared by the audio library and the transcription action\<close>

text \<open>
  A JavaScript \<^verbatim>\<open>throw\<close> carries either an \<^verbatim>\<open>Error\<close> object with a message or some
  other value; the handlers of this repository only ever ask
  \<^verbatim>\<open>error instanceof Error ? error.message : fallback\<close>.
\<close>

datatype thrown = Error string | NonError

fun messageOr :: "string \<Rightarrow> thrown \<Rightarrow> string" where
  "messageOr dflt (Error m) = m"
| "messageOr dflt NonError = dflt"

text \<open>
  Template literals render a non-negative integer in decimal
  (\<^verbatim>\<open>`chunk_${i}_...`\<close>, \<^verbatim>\<open>`segment ${i + 1}`\<close>, \<^verbatim>\<open>`${MAX_FILE_SIZE / (1024 * 1024)}MB`\<close>).
\<close>

definition digit :: "nat \<Rightarrow> char" where
  "digit d = ''0123456789'' ! d"

function toString :: "nat \<Rightarrow> string" where
  "toString n = (if n < 10 then [digit n] else toString (n div 10) @ [digit (n mod 10)])"
  by pat_completeness auto
termination
  by (relation "measure (\<lambda>n. n)") auto

declare toString.simps [simp del]

section \<open>lib/audio/processor.ts: the chunker\<close>

type_synonym byte = "8 word"

text \<open>
  A \<^verbatim>\<open>Blob\<close> is its bytes and its MIME type; a \<^verbatim>\<open>File\<close> is a Blob with a name.
  \<^verbatim>\<open>blob.size\<close> is the number of bytes.
\<close>

record Blob =
  bytes :: "byte list"
  type' :: string

record File = Blob +
  name :: string

definition size' :: "'a Blob_scheme \<Rightarrow> nat" where
  "size' b = length (bytes b)"

record ProcessedAudio =
  chunks :: "Blob list"
  fileName :: string
  fileType :: string
  totalSize :: nat

definition MAX_FILE_SIZE :: nat where
  "MAX_FILE_SIZE = 500 * 1024 * 1024"

definition MAX_CHUNK_SIZE :: nat where
  "MAX_CHUNK_SIZE = 20 * 1024 * 1024"

definition GROQ_SIZE_LIMIT :: nat where
  "GROQ_SIZE_LIMIT = 25 * 1024 * 1024"

text \<open>
  \<^verbatim>\<open>buffer.slice(begin, end)\<close> on an ArrayBuffer, for \<open>0 \<le> begin \<le> end\<close>: the bytes from
  \<open>begin\<close> up to (not including) \<open>end\<close>, clamped to the buffer.
\<close>

definition slice :: "byte list \<Rightarrow> nat \<Rightarrow> nat \<Rightarrow> byte list" where
  "slice buffer begin end' = take (end' - begin) (drop begin buffer)"

text \<open>
  The \<^verbatim>\<open>while (offset < buffer.byteLength)\<close> loop of \<^verbatim>\<open>processAudioFile\<close>; \<open>ty\<close> is
  \<^verbatim>\<open>file.type\<close>, and \<open>cs\<close> the array \<^verbatim>\<open>chunks\<close> pushed to so far.
\<close>

function splitLoop :: "byte list \<Rightarrow> string \<Rightarrow> nat \<Rightarrow> Blob list \<Rightarrow> Blob list" where
  "splitLoop buffer ty offset cs =
     (if offset < length buffer then
        let chunkSize = min MAX_CHUNK_SIZE (length buffer - offset);
            chunk = slice buffer offset (offset + chunkSize)
        in splitLoop buffer ty (offset + chunkSize) (cs @ [\<lparr>bytes = chunk, type' = ty\<rparr>])
      else cs)"
  by pat_completeness auto
termination
  by (relation "measure (\<lambda>(buffer, ty, offset, cs). length buffer - offset)")
     (auto simp: MAX_CHUNK_SIZE_def)

declare splitLoop.simps [simp del]

definition processAudioFile :: "File \<Rightarrow> thrown + ProcessedAudio" where
  "processAudioFile file =
     (if size' file > MAX_FILE_SIZE then
        Inl (Error (''File size exceeds maximum limit of ''
                      @ toString (MAX_FILE_SIZE div (1024 * 1024)) @ ''MB''))
      else if size' file \<le> GROQ_SIZE_LIMIT then
        Inr \<lparr>chunks = [Blob.truncate file], fileName = name file,
             fileType = type' file, totalSize = size' file\<rparr>
      else
        let buffer = bytes file
        in Inr \<lparr>chunks = splitLoop buffer (type' file) 0 [], fileName = name file,
                fileType = type' file, totalSize = size' file\<rparr>)"

section \<open>lib/audio/groq.ts: the transcription client and the merger\<close>

text \<open>
  A JavaScript \<^verbatim>\<open>number\<close> is a double. A finite double is modelled as the real it
  denotes. The language defines the sum of two finite numbers as the double nearest to
  their exact sum, and \<^verbatim>\<open>Number(...)\<close> of a decimal as the double nearest to it. This
  rounding of a real to the nearest double is the parameter \<open>toDouble\<close> of the merger and
  of the action; nothing is assumed about it, so what is proved holds for the rounding of
  IEEE 754 in particular. \<^verbatim>\<open>Math.max\<close> and \<^verbatim>\<open>Math.round\<close> do not round to a double.
  Infinities and NaN are not modelled. The field \<^verbatim>\<open>text\<close> of a segment is
  \<open>segment_text\<close>; \<^verbatim>\<open>id\<close> and \<^verbatim>\<open>end\<close> carry a prime.
\<close>

record TranscriptionSegment =
  id' :: real
  start :: real
  end' :: real
  segment_text :: string
  tokens :: "real list"
  temperature :: real
  avg_logprob :: real
  compression_ratio :: real
  no_speech_prob :: real

record TranscriptionResponse =
  text' :: string
  segments :: "TranscriptionSegment list"
  language :: string

definition blobToFile :: "Blob \<Rightarrow> string \<Rightarrow> File" where
  "blobToFile blob filename = \<lparr>bytes = bytes blob, type' = type' blob, name = filename\<rparr>"

text \<open>
  \<^verbatim>\<open>transcribeAudio\<close>: one call of the provider (\<^verbatim>\<open>groq.audio.transcriptions.create\<close>,
  the parameter \<open>create\<close>, with the model and the response format fixed); whatever the call
  throws is thrown again as an \<^verbatim>\<open>Error\<close> with the same message, or with
  \<^verbatim>\<open>'Unknown transcription error'\<close>. Logging to the console is left out, and so is the
  default file name, since the action always passes one.
\<close>

definition transcribeAudio ::
    "(File \<Rightarrow> thrown + TranscriptionResponse) \<Rightarrow> Blob \<Rightarrow> string \<Rightarrow> thrown + TranscriptionResponse" where
  "transcribeAudio create audioBlob filename =
     (let audioFile = blobToFile audioBlob filename
      in case create audioFile of
           Inr transcription \<Rightarrow> Inr transcription
         | Inl error \<Rightarrow> Inl (Error (messageOr ''Unknown transcription error'' error)))"

text \<open>
  \<^verbatim>\<open>String.prototype.trim\<close> removes white space and line terminators at both ends. A
  \<open>char\<close> stands for a code unit below 256; of those, the ones \<^verbatim>\<open>trim\<close> removes are
  TAB, LF, VT, FF, CR, SPACE and NBSP.
\<close>

definition isWhiteSpace :: "char \<Rightarrow> bool" where
  "isWhiteSpace c \<longleftrightarrow> c \<in> {CHR 0x09, CHR 0x0A, CHR 0x0B, CHR 0x0C, CHR 0x0D, CHR 0x20, CHR 0xA0}"

definition trim :: "string \<Rightarrow> string" where
  "trim s = rev (dropWhile isWhiteSpace (rev (dropWhile isWhiteSpace s)))"

text \<open>
  \<^verbatim>\<open>array.forEach((element, index) => ...)\<close>, the variables the callback assigns to being
  the state \<open>s\<close>.
\<close>

fun forEach :: "('a \<Rightarrow> nat \<Rightarrow> 's \<Rightarrow> 's) \<Rightarrow> 'a list \<Rightarrow> nat \<Rightarrow> 's \<Rightarrow> 's" where
  "forEach f [] index s = s"
| "forEach f (x # xs) index s = forEach f xs (index + 1) (f x index s)"

record MergeState =
  combinedText :: string
  combinedSegments :: "TranscriptionSegment list"
  timeOffset :: real

text \<open>
  The body of the callback of \<^verbatim>\<open>combineTranscriptions\<close>; \<^verbatim>\<open>segment.start + timeOffset\<close>
  is the double nearest to the exact sum.
\<close>

definition combineStep ::
    "(real \<Rightarrow> real) \<Rightarrow> TranscriptionResponse \<Rightarrow> nat \<Rightarrow> MergeState \<Rightarrow> MergeState" where
  "combineStep toDouble transcription index s =
     (let combinedText1 = (if index > 0 then combinedText s @ '' '' else combinedText s);
          combinedText2 = combinedText1 @ text' transcription;
          adjustedSegments =
            map (\<lambda>segment. segment\<lparr>start := toDouble (start segment + timeOffset s),
                                    end' := toDouble (end' segment + timeOffset s)\<rparr>)
              (segments transcription);
          combinedSegments2 = combinedSegments s @ adjustedSegments;
          timeOffset2 =
            (if length (segments transcription) > 0
             then end' (segments transcription ! (length (segments transcription) - 1))
             else timeOffset s)
      in \<lparr>combinedText = combinedText2, combinedSegments = combinedSegments2,
          timeOffset = timeOffset2\<rparr>)"

definition combineTranscriptions ::
    "(real \<Rightarrow> real) \<Rightarrow> TranscriptionResponse list \<Rightarrow> thrown + TranscriptionResponse" where
  "combineTranscriptions toDouble transcriptions =
     (if length transcriptions = 0 then Inl (Error ''No transcriptions to combine'')
      else if length transcriptions = 1 then Inr (transcriptions ! 0)
      else
        let s = forEach (combineStep toDouble) transcriptions 0
                  \<lparr>combinedText = [], combinedSegments = [], timeOffset = 0\<rparr>
        in Inr \<lparr>text' = trim (combinedText s), segments = combinedSegments s,
                language = language (transcriptions ! 0)\<rparr>)"

section \<open>The transcription action (\<^verbatim>\<open>processTranscription\<close>)\<close>

text \<open>
  The handler of \<^verbatim>\<open>processTranscription\<close>. Its collaborators are parameters:
  \<open>getUserWithTeam\<close> and \<open>saveTranscription\<close> of the database layer
  (\<^verbatim>\<open>lib/db/queries\<close>), and the provider call \<open>groq_create\<close>. Each returns a value or
  throws. The schema check in front of the handler is not part of it. The handler's
  result is the response together with the provider and store calls it issued, in order.
  The local \<^verbatim>\<open>duration\<close> of the handler is \<open>maxEnd\<close>; a falsy \<^verbatim>\<open>teamId\<close> is a missing
  user, a null team or the team 0.
\<close>

record UserWithTeam =
  teamId :: "int option"

record TranscriptionData =
  data_teamId :: int
  userId :: int
  data_fileName :: string
  originalText :: string
  data_segments :: "TranscriptionSegment list"
  duration :: int
  data_language :: string
  data_fileType :: string
  fileSize :: nat
  status :: string
  errorLog :: "string option"

record 'row TranscriptionActionResponse =
  error :: "string option"
  success :: "string option"
  transcription :: "'row option"

record 'row Collaborators =
  getUserWithTeam :: "int \<Rightarrow> thrown + UserWithTeam option"
  groq_create :: "File \<Rightarrow> thrown + TranscriptionResponse"
  saveTranscription :: "TranscriptionData \<Rightarrow> thrown + 'row"

datatype call = ProviderCall File | StoreCall TranscriptionData

text \<open>\<^verbatim>\<open>errors.join('\n')\<close>.\<close>

fun join :: "string list \<Rightarrow> string" where
  "join [] = []"
| "join [x] = x"
| "join (x # y # ys) = x @ [CHR 0x0A] @ join (y # ys)"

text \<open>
  \<^verbatim>\<open>Math.max(...xs)\<close> for a non-empty array (the caller tests the length first; of no
  arguments it is \<open>-\<infinity>\<close>, which is not a real), and \<^verbatim>\<open>Math.round\<close>, which
  rounds to the nearest integer, a tie towards \<open>+\<infinity>\<close>.
\<close>

fun Math_max :: "real list \<Rightarrow> real" where
  "Math_max (x # xs) = fold max xs x"

definition Math_round :: "real \<Rightarrow> int" where
  "Math_round x = \<lfloor>x + 1 / 2\<rfloor>"

text \<open>
  \<^verbatim>\<open>Number(x.toFixed(3))\<close>: the sign is set aside, the magnitude is rounded to the
  nearest multiple of 1/1000 (a tie upwards), and the decimal printed is read back as the
  double nearest to it; from \<open>10\<^sup>2\<^sup>1\<close> on \<^verbatim>\<open>toFixed\<close> prints the number itself.
\<close>

definition toFixed3 :: "(real \<Rightarrow> real) \<Rightarrow> real \<Rightarrow> real" where
  "toFixed3 toDouble x =
     (if \<bar>x\<bar> \<ge> 10 ^ 21 then x
      else toDouble (sgn x * real_of_int \<lfloor>\<bar>x\<bar> * 1000 + 1 / 2\<rfloor> / 1000))"

text \<open>
  The \<^verbatim>\<open>for (let i = 0; i < totalChunks; i++)\<close> loop with its \<^verbatim>\<open>try\<close>/\<^verbatim>\<open>catch\<close>:
  \<open>results\<close> is \<^verbatim>\<open>transcriptionResults\<close>, \<open>e\<close> the caught \<^verbatim>\<open>error\<close>, and \<open>calls\<close> the
  provider calls issued so far.
  The counter \<^verbatim>\<open>completedChunks\<close> is never read and is left out.
\<close>

function transcribeLoop ::
    "(File \<Rightarrow> thrown + TranscriptionResponse) \<Rightarrow> ProcessedAudio \<Rightarrow> nat \<Rightarrow>
     TranscriptionResponse list \<Rightarrow> string list \<Rightarrow> call list \<Rightarrow>
     TranscriptionResponse list \<times> string list \<times> call list" where
  "transcribeLoop create processedAudio i results errors calls =
     (let totalChunks = length (chunks processedAudio)
      in if i < totalChunks then
           let chunk = chunks processedAudio ! i;
               chunkName = ''chunk_'' @ toString i @ ''_'' @ fileName processedAudio;
               calls2 = calls @ [ProviderCall (blobToFile chunk chunkName)]
           in case transcribeAudio create chunk chunkName of
                Inr result \<Rightarrow>
                  transcribeLoop create processedAudio (i + 1) (results @ [result]) errors calls2
              | Inl e \<Rightarrow>
                  transcribeLoop create processedAudio (i + 1) results
                    (errors @ [''Failed to transcribe segment '' @ toString (i + 1) @ '': ''
                                 @ messageOr ''Unknown error'' e])
                    calls2
         else (results, errors, calls))"
  by pat_completeness auto
termination
  by (relation "measure (\<lambda>(create, processedAudio, i, results, errors, calls).
                  length (chunks processedAudio) - i)") auto

declare transcribeLoop.simps [simp del]

text \<open>The outer \<^verbatim>\<open>catch\<close> of the handler: the response for a thrown value.\<close>

definition caught :: "thrown \<Rightarrow> 'row TranscriptionActionResponse" where
  "caught e = \<lparr>error = Some (messageOr ''Failed to process transcription. Please try again.'' e),
              success = None, transcription = None\<rparr>"

definition processTranscription ::
    "(real \<Rightarrow> real) \<Rightarrow> 'row Collaborators \<Rightarrow> File \<Rightarrow> int \<Rightarrow>
     'row TranscriptionActionResponse \<times> call list" where
  "processTranscription toDouble env file user_id =
     (case getUserWithTeam env user_id of
        Inl e \<Rightarrow> (caught e, [])
      | Inr userWithTeam \<Rightarrow>
          (case (case userWithTeam of None \<Rightarrow> None | Some u \<Rightarrow> teamId u) of
             None \<Rightarrow> (\<lparr>error = Some ''User is not part of a team'', success = None,
                       transcription = None\<rparr>, [])
           | Some team \<Rightarrow>
               if team = 0 then (\<lparr>error = Some ''User is not part of a team'', success = None,
                                  transcription = None\<rparr>, [])
               else
                (case processAudioFile file of
                   Inl e \<Rightarrow> (caught e, [])
                 | Inr processedAudio \<Rightarrow>
                     (case transcribeLoop (groq_create env) processedAudio 0 [] [] [] of
                        (transcriptionResults, errors, calls) \<Rightarrow>
                          if length transcriptionResults = 0 then
                            (caught (Error ''Failed to transcribe any part of the audio file''), calls)
                          else
                            (case combineTranscriptions toDouble transcriptionResults of
                               Inl e \<Rightarrow> (caught e, calls)
                             | Inr combinedTranscription \<Rightarrow>
                                 let maxEnd =
                                       (if length (segments combinedTranscription) > 0
                                        then Math_max (map end' (segments combinedTranscription))
                                        else 0);
                                     transcriptionData =
                                       \<lparr>data_teamId = team,
                                        userId = user_id,
                                        data_fileName = fileName processedAudio,
                                        originalText = text' combinedTranscription,
                                        data_segments =
                                          map (\<lambda>segment.
                                                 segment\<lparr>start := toFixed3 toDouble (start segment),
                                                         end' := toFixed3 toDouble (end' segment)\<rparr>)
                                            (segments combinedTranscription),
                                        duration = Math_round maxEnd,
                                        data_language = language combinedTranscription,
                                        data_fileType = fileType processedAudio,
                                        fileSize = totalSize processedAudio,
                                        status = (if length errors > 0 then ''partial'' else ''complete''),
                                        errorLog = (if length errors > 0 then Some (join errors) else None)\<rparr>
                                 in case saveTranscription env transcriptionData of
                                      Inl e \<Rightarrow> (caught e, calls @ [StoreCall transcriptionData])
                                    | Inr row \<Rightarrow>
                                        (\<lparr>error = (if length errors > 0 then Some (join errors) else None),
                                          success = Some (if length errors > 0
                                                          then ''Transcription completed with some errors''
                                                          else ''Transcription completed successfully''),
                                          transcription = Some row\<rparr>,
                                         calls @ [StoreCall transcriptionData]))))))"

section \<open>Definitions used in the statements and proofs\<close>

text \<open>
  Every chunk the loop pushes is non-empty and at most \<open>MAX_CHUNK_SIZE\<close> bytes long, and
  only the last one can be shorter than that.
\<close>

definition chunks_ok :: "Blob list \<Rightarrow> bool" where
  "chunks_ok cs \<longleftrightarrow>
     (\<forall>c \<in> set cs. 0 < size' c \<and> size' c \<le> MAX_CHUNK_SIZE) \<and>
     (\<forall>c \<in> set (butlast cs). size' c = MAX_CHUNK_SIZE)"

text \<open>
  A real is a double when rounding to the nearest double leaves it as it is. The
  timestamps the provider returns are JavaScript numbers, so they are doubles.
\<close>

definition isDouble :: "(real \<Rightarrow> real) \<Rightarrow> real \<Rightarrow> bool" where
  "isDouble toDouble x \<longleftrightarrow> toDouble x = x"

definition timestampsAreDoubles :: "(real \<Rightarrow> real) \<Rightarrow> TranscriptionResponse list \<Rightarrow> bool" where
  "timestampsAreDoubles toDouble ts \<longleftrightarrow>
     (\<forall>t \<in> set ts. \<forall>s \<in> set (segments t).
        isDouble toDouble (start s) \<and> isDouble toDouble (end' s))"

text \<open>
  The merged segment list in the specification's words: a running offset starts at 0; the
  segments of each chunk are rebased by adding the offset to start and end (the addition
  of the language, as in the code); after a chunk the offset is the end of that chunk's own
  last segment, or stays as it is when the chunk has no segment.
\<close>

definition spec_rebase :: "(real \<Rightarrow> real) \<Rightarrow> real \<Rightarrow> TranscriptionSegment \<Rightarrow> TranscriptionSegment" where
  "spec_rebase toDouble off s = s\<lparr>start := toDouble (start s + off), end' := toDouble (end' s + off)\<rparr>"

definition spec_nextOffset :: "real \<Rightarrow> TranscriptionResponse \<Rightarrow> real" where
  "spec_nextOffset off t = (if segments t = [] then off else end' (last (segments t)))"

fun spec_runningOffsets :: "real \<Rightarrow> TranscriptionResponse list \<Rightarrow> real list" where
  "spec_runningOffsets off [] = []"
| "spec_runningOffsets off (t # ts) = off # spec_runningOffsets (spec_nextOffset off t) ts"

definition spec_combinedSegments ::
    "(real \<Rightarrow> real) \<Rightarrow> TranscriptionResponse list \<Rightarrow> TranscriptionSegment list" where
  "spec_combinedSegments toDouble ts =
     concat (map2 (\<lambda>t off. map (spec_rebase toDouble off) (segments t)) ts (spec_runningOffsets 0 ts))"

text \<open>The same list, started from any offset.\<close>

definition segmentsFrom ::
    "(real \<Rightarrow> real) \<Rightarrow> real \<Rightarrow> TranscriptionResponse list \<Rightarrow> TranscriptionSegment list" where
  "segmentsFrom toDouble off ts =
     concat (map2 (\<lambda>t off. map (spec_rebase toDouble off) (segments t)) ts (spec_runningOffsets off ts))"

text \<open>
  A segment with the given id, start, end and text, used in concrete inputs. The timestamps
  of most concrete inputs are small integers and halves; they and their sums are doubles,
  so rounding to the nearest double leaves them as they are, and the identity stands for
  it there.
\<close>

definition sampleSegment :: "real \<Rightarrow> real \<Rightarrow> real \<Rightarrow> string \<Rightarrow> TranscriptionSegment" where
  "sampleSegment i s e txt =
     \<lparr>id' = i, start = s, end' = e, segment_text = txt, tokens = [], temperature = 0,
      avg_logprob = 0, compression_ratio = 1, no_speech_prob = 0\<rparr>"

text \<open>
  One concrete input has the doubles nearest to 0.1 and to 0.2 as timestamps. Their exact
  sum is not a double; the double nearest to it is 1351079888211149 / 4503599627370496,
  printed as 0.30000000000000004. The other values that input meets (0, the two doubles
  and twice the second) are doubles. \<open>sampleRounding\<close> is the rounding to the nearest
  double on these values.
\<close>

definition sampleRounding :: "real \<Rightarrow> real" where
  "sampleRounding x =
     (if x = 10808639105689191 / 36028797018963968 then 1351079888211149 / 4503599627370496 else x)"

text \<open>
  What the transcription loop computes, said without the loop: the name and the outcome of
  the attempt on chunk \<open>i\<close>, the message logged when it fails, and over a list of chunk
  indices the transcripts of the attempts that succeed, the messages of those that fail
  and the provider calls issued.
\<close>

definition chunkName :: "ProcessedAudio \<Rightarrow> nat \<Rightarrow> string" where
  "chunkName pa i = ''chunk_'' @ toString i @ ''_'' @ fileName pa"

definition attempt ::
    "(File \<Rightarrow> thrown + TranscriptionResponse) \<Rightarrow> ProcessedAudio \<Rightarrow> nat \<Rightarrow> thrown + TranscriptionResponse" where
  "attempt create pa i = transcribeAudio create (chunks pa ! i) (chunkName pa i)"

definition failureMessage :: "nat \<Rightarrow> thrown \<Rightarrow> string" where
  "failureMessage i e =
     ''Failed to transcribe segment '' @ toString (i + 1) @ '': '' @ messageOr ''Unknown error'' e"

definition successes ::
    "(File \<Rightarrow> thrown + TranscriptionResponse) \<Rightarrow> ProcessedAudio \<Rightarrow> nat list \<Rightarrow> TranscriptionResponse list" where
  "successes create pa ks = concat (map (\<lambda>k. case attempt create pa k of Inr r \<Rightarrow> [r] | Inl e \<Rightarrow> []) ks)"

definition failures ::
    "(File \<Rightarrow> thrown + TranscriptionResponse) \<Rightarrow> ProcessedAudio \<Rightarrow> nat list \<Rightarrow> string list" where
  "failures create pa ks =
     concat (map (\<lambda>k. case attempt create pa k of Inr r \<Rightarrow> [] | Inl e \<Rightarrow> [failureMessage k e]) ks)"

definition providerCalls :: "ProcessedAudio \<Rightarrow> nat list \<Rightarrow> call list" where
  "providerCalls pa ks = map (\<lambda>k. ProviderCall (blobToFile (chunks pa ! k) (chunkName pa k))) ks"

text \<open>
  Concrete inputs: a file of \<open>n\<close> zero bytes, a transcript with one segment from 0 to \<open>e\<close>,
  and collaborators with a user in team 1, a provider that fails on the file names
  satisfying \<open>failing\<close> and otherwise returns the file name as text, and a store that
  returns the record it is given.
\<close>

definition zeroFile :: "nat \<Rightarrow> File" where
  "zeroFile n = \<lparr>bytes = replicate n 0, type' = ''audio/mpeg'', name = ''a.mp3''\<rparr>"

definition sampleResponse :: "string \<Rightarrow> real \<Rightarrow> TranscriptionResponse" where
  "sampleResponse txt e = \<lparr>text' = txt, segments = [sampleSegment 0 0 e txt], language = ''en''\<rparr>"

definition sampleCollaborators :: "(string \<Rightarrow> bool) \<Rightarrow> real \<Rightarrow> TranscriptionData Collaborators" where
  "sampleCollaborators failing e =
     \<lparr>getUserWithTeam = (\<lambda>uid. Inr (Some \<lparr>teamId = Some 1\<rparr>)),
      groq_create = (\<lambda>f. if failing (name f) then Inl (Error ''rate limit'')
                         else Inr (sampleResponse (name f) e)),
      saveTranscription = (\<lambda>d. Inr d)\<rparr>"

section \<open>Properties of the chunker\<close>

lemma toString_500: "toString 500 = ''500''"
  by (simp add: toString.simps digit_def)

lemma too_large_message:
  "''File size exceeds maximum limit of '' @ toString (MAX_FILE_SIZE div (1024 * 1024)) @ ''MB''
     = ''File size exceeds maximum limit of 500MB''"
  by (simp add: MAX_FILE_SIZE_def toString_500)

lemma splitLoop_stop: "length buffer \<le> offset \<Longrightarrow> splitLoop buffer ty offset cs = cs"
  by (simp add: splitLoop.simps)

lemma splitLoop_step:
  "offset < length buffer \<Longrightarrow>
   splitLoop buffer ty offset cs =
     splitLoop buffer ty (offset + min MAX_CHUNK_SIZE (length buffer - offset))
       (cs @ [\<lparr>bytes = slice buffer offset (offset + min MAX_CHUNK_SIZE (length buffer - offset)),
               type' = ty\<rparr>])"
  by (subst splitLoop.simps) (simp add: Let_def)

text \<open>The chunks pushed by the loop, laid end to end, are the rest of the buffer.\<close>

lemma splitLoop_concat:
  "concat (map bytes (splitLoop buffer ty offset cs)) = concat (map bytes cs) @ drop offset buffer"
proof (induction buffer ty offset cs rule: splitLoop.induct)
  case (1 buffer ty offset cs)
  show ?case
  proof (cases "offset < length buffer")
    case False
    then show ?thesis by (simp add: splitLoop_stop)
  next
    case True
    define k where "k = min MAX_CHUNK_SIZE (length buffer - offset)"
    have ih: "concat (map bytes (splitLoop buffer ty (offset + k)
                 (cs @ [\<lparr>bytes = slice buffer offset (offset + k), type' = ty\<rparr>])))
              = concat (map bytes (cs @ [\<lparr>bytes = slice buffer offset (offset + k), type' = ty\<rparr>]))
                @ drop (offset + k) buffer"
      using "1.IH" [OF True, of k "slice buffer offset (offset + k)"] by (simp add: k_def)
    have "take k (drop offset buffer) @ drop (offset + k) buffer = drop offset buffer"
      by (metis add.commute append_take_drop_id drop_drop)
    then show ?thesis
      using True ih by (simp add: splitLoop_step k_def [symmetric] slice_def)
  qed
qed

lemma splitLoop_sizes:
  "\<forall>c \<in> set cs. size' c = MAX_CHUNK_SIZE \<Longrightarrow> offset \<le> length buffer \<Longrightarrow>
   chunks_ok (splitLoop buffer ty offset cs)"
proof (induction buffer ty offset cs rule: splitLoop.induct)
  case (1 buffer ty offset cs)
  have pos: "0 < MAX_CHUNK_SIZE" by (simp add: MAX_CHUNK_SIZE_def)
  show ?case
  proof (cases "offset < length buffer")
    case False
    then show ?thesis
      using "1.prems" pos by (auto simp: splitLoop_stop chunks_ok_def dest: in_set_butlastD)
  next
    case True
    define k where "k = min MAX_CHUNK_SIZE (length buffer - offset)"
    define c where "c = \<lparr>bytes = slice buffer offset (offset + k), type' = ty\<rparr>"
    have szc: "size' c = k"
      using True by (simp add: c_def size'_def slice_def k_def)
    have unfold: "splitLoop buffer ty offset cs = splitLoop buffer ty (offset + k) (cs @ [c])"
      using True by (simp add: splitLoop_step k_def c_def)
    show ?thesis
    proof (cases "k = MAX_CHUNK_SIZE")
      case True
      have "chunks_ok (splitLoop buffer ty (offset + k) (cs @ [c]))"
        using "1.IH" [OF \<open>offset < length buffer\<close>, of k "slice buffer offset (offset + k)"]
              "1.prems" szc True k_def c_def by auto
      then show ?thesis by (simp add: unfold)
    next
      case False
      then have "k = length buffer - offset" by (simp add: k_def)
      then have "splitLoop buffer ty (offset + k) (cs @ [c]) = cs @ [c]"
        using \<open>offset < length buffer\<close> by (simp add: splitLoop_stop)
      moreover have "0 < k" "k \<le> MAX_CHUNK_SIZE"
        using \<open>offset < length buffer\<close> pos by (simp_all add: k_def)
      ultimately show ?thesis
        using "1.prems"(1) szc pos by (auto simp: unfold chunks_ok_def)
    qed
  qed
qed

text \<open>Such chunks are the consecutive byte ranges of their concatenation, \<open>MAX_CHUNK_SIZE\<close> apart.\<close>

lemma chunks_are_ranges:
  assumes "chunks_ok cs" and "i < length cs"
  shows "bytes (cs ! i) = slice (concat (map bytes cs)) (i * MAX_CHUNK_SIZE) (i * MAX_CHUNK_SIZE + MAX_CHUNK_SIZE)"
  using assms
proof (induction cs arbitrary: i)
  case Nil
  then show ?case by simp
next
  case (Cons c cs)
  show ?case
  proof (cases cs)
    case Nil
    then have "i = 0" using Cons.prems(2) by simp
    moreover have "length (bytes c) \<le> MAX_CHUNK_SIZE"
      using Cons.prems(1) by (simp add: chunks_ok_def size'_def)
    ultimately show ?thesis using Nil by (simp add: slice_def)
  next
    case (Cons d ds)
    then have full: "length (bytes c) = MAX_CHUNK_SIZE"
      using Cons.prems(1) by (simp add: chunks_ok_def size'_def)
    have ok: "chunks_ok cs"
      using Cons.prems(1) Cons by (auto simp: chunks_ok_def)
    show ?thesis
    proof (cases i)
      case 0
      then show ?thesis using full by (simp add: slice_def)
    next
      case (Suc j)
      then have "j < length cs" using Cons.prems(2) by simp
      from Cons.IH [OF ok this] show ?thesis
        using Suc full by (simp add: slice_def)
    qed
  qed
qed

lemma limits_ordered: "0 < MAX_CHUNK_SIZE" "MAX_CHUNK_SIZE \<le> GROQ_SIZE_LIMIT" "GROQ_SIZE_LIMIT \<le> MAX_FILE_SIZE"
  by (simp_all add: MAX_CHUNK_SIZE_def GROQ_SIZE_LIMIT_def MAX_FILE_SIZE_def)

lemma processAudioFile_small:
  "size' file \<le> GROQ_SIZE_LIMIT \<Longrightarrow>
   processAudioFile file =
     Inr \<lparr>chunks = [Blob.truncate file], fileName = name file,
          fileType = type' file, totalSize = size' file\<rparr>"
  using limits_ordered(3) by (simp add: processAudioFile_def)

lemma processAudioFile_large:
  "GROQ_SIZE_LIMIT < size' file \<Longrightarrow> size' file \<le> MAX_FILE_SIZE \<Longrightarrow>
   processAudioFile file =
     Inr \<lparr>chunks = splitLoop (bytes file) (type' file) 0 [], fileName = name file,
          fileType = type' file, totalSize = size' file\<rparr>"
  by (simp add: processAudioFile_def)

text \<open>Two payloads used as concrete inputs: 25 MiB + 1 byte and 20 MiB + 1 byte of zeros.\<close>

lemma splitLoop_25MiB_plus_1:
  "splitLoop (replicate 26214401 0) ty 0 [] =
     [\<lparr>bytes = replicate 20971520 0, type' = ty\<rparr>, \<lparr>bytes = replicate 5242881 0, type' = ty\<rparr>]"
  by (simp add: splitLoop.simps [of "replicate 26214401 0"] MAX_CHUNK_SIZE_def slice_def)

text \<open>
  C4. A payload of at most 25 MiB (\<open>GROQ_SIZE_LIMIT\<close>) is returned as exactly one chunk,
  and that chunk is the whole payload: the same bytes and the same MIME type.
\<close>

theorem small_payload_single_chunk:
  assumes "size' file \<le> GROQ_SIZE_LIMIT"
  shows "\<exists>pa. processAudioFile file = Inr pa \<and> length (chunks pa) = 1 \<and>
              chunks pa = [Blob.truncate file] \<and>
              bytes (chunks pa ! 0) = bytes file \<and> type' (chunks pa ! 0) = type' file"
  using assms by (simp add: processAudioFile_small Blob.truncate_def)

theorem small_payload_single_chunk_witness:
  "size' \<lparr>bytes = [1, 2, 3], type' = ''audio/mpeg'', name = ''a.mp3''\<rparr> \<le> GROQ_SIZE_LIMIT \<and>
   (\<exists>pa. processAudioFile \<lparr>bytes = [1, 2, 3], type' = ''audio/mpeg'', name = ''a.mp3''\<rparr> = Inr pa \<and>
         chunks pa = [\<lparr>bytes = [1, 2, 3], type' = ''audio/mpeg''\<rparr>])"
  using small_payload_single_chunk [of "\<lparr>bytes = [1, 2, 3], type' = ''audio/mpeg'', name = ''a.mp3''\<rparr>"]
  by (auto simp: size'_def GROQ_SIZE_LIMIT_def Blob.truncate_def)

text \<open>
  C9. A payload of more than 500 MiB (\<open>MAX_FILE_SIZE\<close>) is rejected: the chunker throws
  its size error (the failure the specification calls PayloadTooLarge) and returns no chunk
  list at all, whatever the bytes are. The size test is the first statement of the function.
\<close>

theorem oversized_payload_rejected:
  assumes "MAX_FILE_SIZE < size' file"
  shows "processAudioFile file = Inl (Error ''File size exceeds maximum limit of 500MB'') \<and>
         (\<forall>pa. processAudioFile file \<noteq> Inr pa)"
  using assms unfolding processAudioFile_def too_large_message by simp

theorem oversized_payload_rejected_witness:
  "MAX_FILE_SIZE < size' \<lparr>bytes = replicate (500 * 1024 * 1024 + 1) 0, type' = ''audio/wav'', name = ''big.wav''\<rparr> \<and>
   processAudioFile \<lparr>bytes = replicate (500 * 1024 * 1024 + 1) 0, type' = ''audio/wav'', name = ''big.wav''\<rparr>
     = Inl (Error ''File size exceeds maximum limit of 500MB'')"
  using oversized_payload_rejected
          [of "\<lparr>bytes = replicate (500 * 1024 * 1024 + 1) 0, type' = ''audio/wav'', name = ''big.wav''\<rparr>"]
  by (simp add: size'_def MAX_FILE_SIZE_def)

text \<open>
  C2. A payload of more than 25 MiB and at most 500 MiB is cut into consecutive chunks:
  laid end to end in order they are the payload, byte for byte; every chunk is non-empty
  and at most 20 MiB (\<open>MAX_CHUNK_SIZE\<close>); every chunk but the last is exactly 20 MiB; and
  chunk \<open>i\<close> is the byte range of the payload that starts at \<open>i\<close> times 20 MiB and ends
  20 MiB later or at the end of the payload.
\<close>

theorem large_payload_chunks:
  assumes "GROQ_SIZE_LIMIT < size' file" and "size' file \<le> MAX_FILE_SIZE"
  shows "\<exists>pa. processAudioFile file = Inr pa \<and>
              concat (map bytes (chunks pa)) = bytes file \<and>
              (\<forall>c \<in> set (chunks pa). 0 < size' c \<and> size' c \<le> MAX_CHUNK_SIZE) \<and>
              (\<forall>c \<in> set (butlast (chunks pa)). size' c = MAX_CHUNK_SIZE) \<and>
              (\<forall>i < length (chunks pa).
                 bytes (chunks pa ! i) =
                   slice (bytes file) (i * MAX_CHUNK_SIZE) (i * MAX_CHUNK_SIZE + MAX_CHUNK_SIZE))"
proof -
  let ?cs = "splitLoop (bytes file) (type' file) 0 []"
  have ok: "chunks_ok ?cs"
    by (rule splitLoop_sizes) simp_all
  have whole: "concat (map bytes ?cs) = bytes file"
    by (simp add: splitLoop_concat)
  have "\<forall>i < length ?cs.
          bytes (?cs ! i) = slice (bytes file) (i * MAX_CHUNK_SIZE) (i * MAX_CHUNK_SIZE + MAX_CHUNK_SIZE)"
    using chunks_are_ranges [OF ok] whole by simp
  then show ?thesis
    using assms ok whole by (simp add: processAudioFile_large chunks_ok_def)
qed

theorem large_payload_chunks_witness:
  "GROQ_SIZE_LIMIT < size' \<lparr>bytes = replicate 26214401 0, type' = ''audio/mpeg'', name = ''a.mp3''\<rparr> \<and>
   size' \<lparr>bytes = replicate 26214401 0, type' = ''audio/mpeg'', name = ''a.mp3''\<rparr> \<le> MAX_FILE_SIZE \<and>
   (\<exists>pa. processAudioFile \<lparr>bytes = replicate 26214401 0, type' = ''audio/mpeg'', name = ''a.mp3''\<rparr> = Inr pa \<and>
         map size' (chunks pa) = [20971520, 5242881] \<and>
         concat (map bytes (chunks pa)) = replicate 26214401 0)"
proof -
  let ?f = "\<lparr>bytes = replicate 26214401 0, type' = ''audio/mpeg'', name = ''a.mp3''\<rparr>"
  have h1: "GROQ_SIZE_LIMIT < size' ?f" by (simp add: size'_def GROQ_SIZE_LIMIT_def)
  have h2: "size' ?f \<le> MAX_FILE_SIZE" by (simp add: size'_def MAX_FILE_SIZE_def)
  obtain pa where pa: "processAudioFile ?f = Inr pa" "concat (map bytes (chunks pa)) = bytes ?f"
    using large_payload_chunks [OF h1 h2] by blast
  have "chunks pa = splitLoop (replicate 26214401 0) ''audio/mpeg'' 0 []"
    using pa(1) h1 h2 by (auto simp: processAudioFile_large)
  then have "map size' (chunks pa) = [20971520, 5242881]"
    by (simp add: splitLoop_25MiB_plus_1 size'_def)
  then show ?thesis using h1 h2 pa by simp
qed

text \<open>
  C3, as stated, fails: a payload of 20 MiB + 1 byte is accepted, is not above the 25 MiB
  provider limit, and so comes back as one chunk of 20 MiB + 1 byte, which is larger than
  the 20 MiB target \<open>MAX_CHUNK_SIZE\<close>.
\<close>

theorem chunk_above_soft_target_counterexample:
  "size' \<lparr>bytes = replicate 20971521 0, type' = ''audio/mpeg'', name = ''a.mp3''\<rparr> \<le> MAX_FILE_SIZE \<and>
   processAudioFile \<lparr>bytes = replicate 20971521 0, type' = ''audio/mpeg'', name = ''a.mp3''\<rparr> =
     Inr \<lparr>chunks = [\<lparr>bytes = replicate 20971521 0, type' = ''audio/mpeg''\<rparr>],
          fileName = ''a.mp3'', fileType = ''audio/mpeg'', totalSize = 20971521\<rparr> \<and>
   MAX_CHUNK_SIZE < size' \<lparr>bytes = replicate 20971521 0, type' = ''audio/mpeg''\<rparr>"
  by (simp add: processAudioFile_def size'_def MAX_FILE_SIZE_def GROQ_SIZE_LIMIT_def
        MAX_CHUNK_SIZE_def Blob.truncate_def)

text \<open>
  C3, amended. For every accepted payload (at most 500 MiB) the chunks, laid end to end in
  order, are the payload, and every chunk is at most 25 MiB (\<open>GROQ_SIZE_LIMIT\<close>). Every
  chunk is also at most the 20 MiB target when the payload is above 25 MiB (it is split) or
  is itself at most 20 MiB.
\<close>

theorem accepted_payload_chunks:
  assumes "size' file \<le> MAX_FILE_SIZE"
  shows "\<exists>pa. processAudioFile file = Inr pa \<and>
              concat (map bytes (chunks pa)) = bytes file \<and>
              (\<forall>c \<in> set (chunks pa). size' c \<le> GROQ_SIZE_LIMIT) \<and>
              (size' file \<le> MAX_CHUNK_SIZE \<or> GROQ_SIZE_LIMIT < size' file \<longrightarrow>
                 (\<forall>c \<in> set (chunks pa). size' c \<le> MAX_CHUNK_SIZE))"
proof (cases "size' file \<le> GROQ_SIZE_LIMIT")
  case True
  then show ?thesis
    using limits_ordered(2) by (simp add: processAudioFile_small Blob.truncate_def size'_def)
next
  case False
  have ok: "chunks_ok (splitLoop (bytes file) (type' file) 0 [])"
    by (rule splitLoop_sizes) simp_all
  have "\<forall>c \<in> set (splitLoop (bytes file) (type' file) 0 []). size' c \<le> MAX_CHUNK_SIZE"
    using ok by (simp add: chunks_ok_def)
  moreover from this have "\<forall>c \<in> set (splitLoop (bytes file) (type' file) 0 []). size' c \<le> GROQ_SIZE_LIMIT"
    using limits_ordered(2) by fastforce
  moreover have "concat (map bytes (splitLoop (bytes file) (type' file) 0 [])) = bytes file"
    by (simp add: splitLoop_concat)
  ultimately show ?thesis
    using assms False by (simp add: processAudioFile_large)
qed

theorem accepted_payload_chunks_witness:
  "size' \<lparr>bytes = replicate 26214401 0, type' = ''audio/ogg'', name = ''b.ogg''\<rparr> \<le> MAX_FILE_SIZE \<and>
   GROQ_SIZE_LIMIT < size' \<lparr>bytes = replicate 26214401 0, type' = ''audio/ogg'', name = ''b.ogg''\<rparr> \<and>
   (\<exists>pa. processAudioFile \<lparr>bytes = replicate 26214401 0, type' = ''audio/ogg'', name = ''b.ogg''\<rparr> = Inr pa \<and>
         concat (map bytes (chunks pa)) = replicate 26214401 0 \<and>
         list_all (\<lambda>c. size' c \<le> GROQ_SIZE_LIMIT) (chunks pa) \<and>
         list_all (\<lambda>c. size' c \<le> MAX_CHUNK_SIZE) (chunks pa))"
proof -
  let ?f = "\<lparr>bytes = replicate 26214401 0, type' = ''audio/ogg'', name = ''b.ogg''\<rparr>"
  have h1: "size' ?f \<le> MAX_FILE_SIZE" by (simp add: size'_def MAX_FILE_SIZE_def)
  have h2: "GROQ_SIZE_LIMIT < size' ?f" by (simp add: size'_def GROQ_SIZE_LIMIT_def)
  show ?thesis
    using accepted_payload_chunks [OF h1] h1 h2 by (auto simp: list_all_iff)
qed

section \<open>Properties of the merger\<close>

lemma combineStep_fields:
  "combinedSegments (combineStep toDouble t i s) =
     combinedSegments s @ map (spec_rebase toDouble (timeOffset s)) (segments t)"
  "timeOffset (combineStep toDouble t i s) = spec_nextOffset (timeOffset s) t"
  "combinedText (combineStep toDouble t i s) =
     (if i > 0 then combinedText s @ '' '' else combinedText s) @ text' t"
  by (auto simp: combineStep_def Let_def spec_rebase_def spec_nextOffset_def last_conv_nth)

lemma forEach_segments:
  "combinedSegments (forEach (combineStep toDouble) ts i s) =
     combinedSegments s @
     concat (map2 (\<lambda>t off. map (spec_rebase toDouble off) (segments t)) ts
               (spec_runningOffsets (timeOffset s) ts))"
  by (induction ts arbitrary: i s) (simp_all add: combineStep_fields)

text \<open>Adding the offset 0 to the timestamps of a segment changes nothing when they are doubles.\<close>

lemma spec_rebase_0:
  "isDouble toDouble (start s) \<Longrightarrow> isDouble toDouble (end' s) \<Longrightarrow> spec_rebase toDouble 0 s = s"
  by (simp add: spec_rebase_def isDouble_def)

lemma combine_total: "rs \<noteq> [] \<Longrightarrow> \<exists>c. combineTranscriptions toDouble rs = Inr c"
  by (simp add: combineTranscriptions_def Let_def)

lemma combine_segments_many:
  assumes "2 \<le> length ts"
  shows "\<exists>c. combineTranscriptions toDouble ts = Inr c \<and>
             segments c = spec_combinedSegments toDouble ts"
proof -
  obtain t u vs where "ts = t # u # vs"
    using assms by (cases ts; cases "tl ts") auto
  then show ?thesis
    by (simp add: combineTranscriptions_def spec_combinedSegments_def forEach_segments
          combineStep_fields Let_def)
qed

lemma combine_segments:
  assumes "ts \<noteq> []" and "timestampsAreDoubles toDouble ts"
  shows "\<exists>c. combineTranscriptions toDouble ts = Inr c \<and>
             segments c = spec_combinedSegments toDouble ts"
proof (cases "2 \<le> length ts")
  case True
  then show ?thesis by (rule combine_segments_many)
next
  case False
  then obtain t where t: "ts = [t]"
    using assms(1) by (cases ts; cases "tl ts") auto
  have "map (spec_rebase toDouble 0) (segments t) = segments t"
    using assms(2) by (intro map_idI spec_rebase_0) (simp_all add: t timestampsAreDoubles_def)
  then show ?thesis
    by (simp add: t combineTranscriptions_def spec_combinedSegments_def)
qed

lemma length_spec_runningOffsets: "length (spec_runningOffsets off ts) = length ts"
  by (induction ts arbitrary: off) simp_all

lemma rebased_frame:
  assumes "\<And>off s. f (spec_rebase toDouble off s) = f s" and "length offs = length ts"
  shows "map f (concat (map2 (\<lambda>t off. map (spec_rebase toDouble off) (segments t)) ts offs))
           = map f (concat (map segments ts))"
  using assms(2)
proof (induction ts arbitrary: offs)
  case Nil
  then show ?case by simp
next
  case (Cons t ts)
  then obtain off offs' where "offs = off # offs'" "length offs' = length ts"
    by (cases offs) auto
  then show ?case using Cons.IH [of offs'] assms(1) by simp
qed

lemma spec_combinedSegments_frame:
  assumes "\<And>off s. f (spec_rebase toDouble off s) = f s"
  shows "map f (spec_combinedSegments toDouble ts) = map f (concat (map segments ts))"
  unfolding spec_combinedSegments_def
  by (rule rebased_frame [OF assms]) (simp add: length_spec_runningOffsets)

lemma length_spec_combinedSegments:
  "length (spec_combinedSegments toDouble ts) = sum_list (map (\<lambda>t. length (segments t)) ts)"
proof -
  have "length (spec_combinedSegments toDouble ts)
          = length (map (\<lambda>s. ()) (spec_combinedSegments toDouble ts))"
    by simp
  also have "\<dots> = length (concat (map segments ts))"
    by (simp add: spec_combinedSegments_frame [of "\<lambda>s. ()"])
  finally show ?thesis by (simp add: length_concat comp_def)
qed

lemma forEach_offset:
  "timeOffset (forEach (combineStep toDouble) ts i s)
     = fold (\<lambda>t off. spec_nextOffset off t) ts (timeOffset s)"
  by (induction ts arbitrary: i s) (simp_all add: combineStep_fields)

lemma segmentsFrom_simps:
  "segmentsFrom toDouble off [] = []"
  "segmentsFrom toDouble off (t # ts) =
     map (spec_rebase toDouble off) (segments t) @ segmentsFrom toDouble (spec_nextOffset off t) ts"
  by (simp_all add: segmentsFrom_def)

lemma segmentsFrom_append:
  "segmentsFrom toDouble off (xs @ ys) =
     segmentsFrom toDouble off xs
     @ segmentsFrom toDouble (fold (\<lambda>t off. spec_nextOffset off t) xs off) ys"
  by (induction xs arbitrary: off) (simp_all add: segmentsFrom_simps)

lemma segmentsFrom_skip_empty:
  "segments t = [] \<Longrightarrow>
   segmentsFrom toDouble off (xs @ t # ys) = segmentsFrom toDouble off (xs @ ys)"
  by (simp add: segmentsFrom_append segmentsFrom_simps spec_nextOffset_def)

lemma trim_id:
  assumes "s \<noteq> []" "\<not> isWhiteSpace (hd s)" "\<not> isWhiteSpace (last s)"
  shows "trim s = s"
proof -
  have "dropWhile isWhiteSpace s = s"
    using assms(1,2) by (cases s) simp_all
  moreover have "dropWhile isWhiteSpace (rev s) = rev s"
    using assms(1,3) by (cases "rev s") (simp_all add: hd_rev [symmetric])
  ultimately show ?thesis by (simp add: trim_def)
qed

text \<open>
  C10. For a non-empty list of chunk transcripts (whose timestamps are doubles, as every
  JavaScript number is) the merger returns a transcript whose segments are the chunks'
  segments in input order, each chunk's rebased by the running offset with the addition of
  the language, whatever its rounding. No segment is dropped, added or moved, and every
  field but start and end (id, text, tokens, temperature, avg_logprob, compression_ratio,
  no_speech_prob) is as in the input; ids are carried over as they are, so ids that two
  chunks share are repeated in the result. The concrete input below has the id 0 twice,
  and its second chunk starts at the double 0.1 after an offset of the double 0.2: the
  merged start is the rounded sum 0.30000000000000004, as the code returns it.
\<close>

theorem merged_segments_are_rebased_chunks:
  assumes "ts \<noteq> []" and "timestampsAreDoubles toDouble ts"
  shows "\<exists>c. combineTranscriptions toDouble ts = Inr c \<and>
             segments c = spec_combinedSegments toDouble ts \<and>
             length (segments c) = sum_list (map (\<lambda>t. length (segments t)) ts) \<and>
             map id' (segments c) = map id' (concat (map segments ts)) \<and>
             map segment_text (segments c) = map segment_text (concat (map segments ts)) \<and>
             map tokens (segments c) = map tokens (concat (map segments ts)) \<and>
             map temperature (segments c) = map temperature (concat (map segments ts)) \<and>
             map avg_logprob (segments c) = map avg_logprob (concat (map segments ts)) \<and>
             map compression_ratio (segments c) = map compression_ratio (concat (map segments ts)) \<and>
             map no_speech_prob (segments c) = map no_speech_prob (concat (map segments ts))"
proof -
  obtain c where c: "combineTranscriptions toDouble ts = Inr c"
                    "segments c = spec_combinedSegments toDouble ts"
    using combine_segments [OF assms] by blast
  have "length (segments c) = sum_list (map (\<lambda>t. length (segments t)) ts)"
    by (simp add: c(2) length_spec_combinedSegments)
  moreover have "map id' (segments c) = map id' (concat (map segments ts))"
    unfolding c(2) by (rule spec_combinedSegments_frame) (simp add: spec_rebase_def)
  moreover have "map segment_text (segments c) = map segment_text (concat (map segments ts))"
    unfolding c(2) by (rule spec_combinedSegments_frame) (simp add: spec_rebase_def)
  moreover have "map tokens (segments c) = map tokens (concat (map segments ts))"
    unfolding c(2) by (rule spec_combinedSegments_frame) (simp add: spec_rebase_def)
  moreover have "map temperature (segments c) = map temperature (concat (map segments ts))"
    unfolding c(2) by (rule spec_combinedSegments_frame) (simp add: spec_rebase_def)
  moreover have "map avg_logprob (segments c) = map avg_logprob (concat (map segments ts))"
    unfolding c(2) by (rule spec_combinedSegments_frame) (simp add: spec_rebase_def)
  moreover have "map compression_ratio (segments c) = map compression_ratio (concat (map segments ts))"
    unfolding c(2) by (rule spec_combinedSegments_frame) (simp add: spec_rebase_def)
  moreover have "map no_speech_prob (segments c) = map no_speech_prob (concat (map segments ts))"
    unfolding c(2) by (rule spec_combinedSegments_frame) (simp add: spec_rebase_def)
  ultimately show ?thesis using c by simp
qed

theorem merged_segments_are_rebased_chunks_witness:
  "[\<lparr>text' = ''a'',
     segments = [sampleSegment 0 0 (3602879701896397 / 18014398509481984) ''a''],
     language = ''en''\<rparr>,
    \<lparr>text' = ''b'',
     segments = [sampleSegment 0 (3602879701896397 / 36028797018963968)
                   (3602879701896397 / 18014398509481984) ''b''],
     language = ''en''\<rparr>] \<noteq> [] \<and>
   timestampsAreDoubles sampleRounding
     [\<lparr>text' = ''a'',
       segments = [sampleSegment 0 0 (3602879701896397 / 18014398509481984) ''a''],
       language = ''en''\<rparr>,
      \<lparr>text' = ''b'',
       segments = [sampleSegment 0 (3602879701896397 / 36028797018963968)
                     (3602879701896397 / 18014398509481984) ''b''],
       language = ''en''\<rparr>] \<and>
   (\<exists>c. combineTranscriptions sampleRounding
          [\<lparr>text' = ''a'',
            segments = [sampleSegment 0 0 (3602879701896397 / 18014398509481984) ''a''],
            language = ''en''\<rparr>,
           \<lparr>text' = ''b'',
            segments = [sampleSegment 0 (3602879701896397 / 36028797018963968)
                          (3602879701896397 / 18014398509481984) ''b''],
            language = ''en''\<rparr>] = Inr c \<and>
        length (segments c) = 2 \<and>
        map id' (segments c) = [0, 0] \<and> \<not> distinct (map id' (segments c)) \<and>
        map segment_text (segments c) = [''a'', ''b''] \<and>
        map start (segments c) = [0, 1351079888211149 / 4503599627370496] \<and>
        map end' (segments c) =
          [3602879701896397 / 18014398509481984, 3602879701896397 / 9007199254740992])"
proof -
  let ?ts = "[\<lparr>text' = ''a'',
               segments = [sampleSegment 0 0 (3602879701896397 / 18014398509481984) ''a''],
               language = ''en''\<rparr>,
              \<lparr>text' = ''b'',
               segments = [sampleSegment 0 (3602879701896397 / 36028797018963968)
                             (3602879701896397 / 18014398509481984) ''b''],
               language = ''en''\<rparr>]"
  have h1: "?ts \<noteq> []" by simp
  have h2: "timestampsAreDoubles sampleRounding ?ts"
    by (simp add: timestampsAreDoubles_def isDouble_def sampleRounding_def sampleSegment_def)
  from merged_segments_are_rebased_chunks [OF h1 h2] h2
  show ?thesis
    by (auto simp: sampleSegment_def spec_combinedSegments_def spec_rebase_def spec_nextOffset_def
          sampleRounding_def)
qed

text \<open>
  C5. A chunk transcript with no segment leaves the running offset of the merge loop as it
  was and adds no segment. So the chunks after it are rebased exactly as if it were not
  there: the loop run on it and the rest yields the segments and the offset of the loop run
  on the rest alone, and the merger on a list with the empty chunk at any position returns
  the same segments as on the list without it (the timestamps being doubles, which matters
  only when one transcript is left and is returned as it is).
\<close>

theorem empty_chunk_keeps_offset:
  assumes "segments t = []"
  shows "timeOffset (combineStep toDouble t i s) = timeOffset s \<and>
         combinedSegments (combineStep toDouble t i s) = combinedSegments s \<and>
         combinedSegments (forEach (combineStep toDouble) (t # rest) i s)
           = combinedSegments (forEach (combineStep toDouble) rest i s) \<and>
         timeOffset (forEach (combineStep toDouble) (t # rest) i s)
           = timeOffset (forEach (combineStep toDouble) rest i s) \<and>
         (xs @ ys \<noteq> [] \<and> timestampsAreDoubles toDouble (xs @ ys) \<longrightarrow>
            (\<exists>c c'. combineTranscriptions toDouble (xs @ t # ys) = Inr c \<and>
                    combineTranscriptions toDouble (xs @ ys) = Inr c' \<and> segments c = segments c'))"
proof -
  have step: "timeOffset (combineStep toDouble t i s) = timeOffset s"
             "combinedSegments (combineStep toDouble t i s) = combinedSegments s"
    using assms by (simp_all add: combineStep_fields spec_nextOffset_def)
  have loop: "combinedSegments (forEach (combineStep toDouble) (t # rest) i s)
                = combinedSegments (forEach (combineStep toDouble) rest i s)"
             "timeOffset (forEach (combineStep toDouble) (t # rest) i s)
                = timeOffset (forEach (combineStep toDouble) rest i s)"
    by (simp_all add: forEach_segments forEach_offset step)
  have whole: "\<exists>c c'. combineTranscriptions toDouble (xs @ t # ys) = Inr c \<and>
                 combineTranscriptions toDouble (xs @ ys) = Inr c' \<and> segments c = segments c'"
    if ne: "xs @ ys \<noteq> []" and dbl: "timestampsAreDoubles toDouble (xs @ ys)"
  proof -
    have "2 \<le> length (xs @ t # ys)"
      using ne by (cases xs; cases ys) simp_all
    then obtain c where c: "combineTranscriptions toDouble (xs @ t # ys) = Inr c"
                           "segments c = spec_combinedSegments toDouble (xs @ t # ys)"
      using combine_segments_many by blast
    obtain c' where c': "combineTranscriptions toDouble (xs @ ys) = Inr c'"
                        "segments c' = spec_combinedSegments toDouble (xs @ ys)"
      using combine_segments [OF ne dbl] by auto
    have "spec_combinedSegments toDouble (xs @ t # ys) = spec_combinedSegments toDouble (xs @ ys)"
      using segmentsFrom_skip_empty [OF assms, of toDouble 0 xs ys]
      by (simp add: segmentsFrom_def spec_combinedSegments_def)
    then show ?thesis using c c' by simp
  qed
  show ?thesis using step loop whole by blast
qed

theorem empty_chunk_keeps_offset_witness:
  "segments \<lparr>text' = [], segments = [], language = ''en''\<rparr> = [] \<and>
   timestampsAreDoubles id
     [\<lparr>text' = ''hello'', segments = [sampleSegment 0 0 10 ''hello''], language = ''en''\<rparr>,
      \<lparr>text' = ''world'', segments = [sampleSegment 0 0 2 ''world''], language = ''en''\<rparr>] \<and>
   (\<exists>c c'. combineTranscriptions id
             [\<lparr>text' = ''hello'', segments = [sampleSegment 0 0 10 ''hello''], language = ''en''\<rparr>,
              \<lparr>text' = [], segments = [], language = ''en''\<rparr>,
              \<lparr>text' = ''world'', segments = [sampleSegment 0 0 2 ''world''], language = ''en''\<rparr>] = Inr c \<and>
           combineTranscriptions id
             [\<lparr>text' = ''hello'', segments = [sampleSegment 0 0 10 ''hello''], language = ''en''\<rparr>,
              \<lparr>text' = ''world'', segments = [sampleSegment 0 0 2 ''world''], language = ''en''\<rparr>] = Inr c' \<and>
           segments c = segments c' \<and>
           segments c = [sampleSegment 0 0 10 ''hello'', sampleSegment 0 10 12 ''world''])"
proof -
  let ?a = "\<lparr>text' = ''hello'', segments = [sampleSegment 0 0 10 ''hello''], language = ''en''\<rparr>"
  let ?e = "\<lparr>text' = [], segments = [], language = ''en''\<rparr>"
  let ?b = "\<lparr>text' = ''world'', segments = [sampleSegment 0 0 2 ''world''], language = ''en''\<rparr>"
  have h1: "segments ?e = []" by simp
  have h2: "timestampsAreDoubles id [?a, ?b]"
    by (simp add: timestampsAreDoubles_def isDouble_def)
  from empty_chunk_keeps_offset
         [OF h1, where toDouble = id and i = 1 and rest = "[?b]" and xs = "[?a]" and ys = "[?b]"
            and s = "\<lparr>combinedText = ''hello'', combinedSegments = [sampleSegment 0 0 10 ''hello''],
                       timeOffset = 10\<rparr>"]
       h2
  show ?thesis
    by (simp add: combineTranscriptions_def combineStep_def Let_def sampleSegment_def)
qed

text \<open>
  C1, as stated, fails on the text: the merger trims the joined text. With chunk A's text
  \<^verbatim>\<open>" hello"\<close> (a leading space, as the provider often returns it) and chunk B's text
  \<^verbatim>\<open>"world"\<close>, the segment of B from 0 to 2 does become the segment from 10 to 12, but
  the merged text is \<^verbatim>\<open>"hello world"\<close>, not \<^verbatim>\<open>" hello world"\<close>. The sums here are
  0 + 0, 10 + 0, 0 + 10 and 2 + 10, which doubles add exactly.
\<close>

theorem two_chunk_text_counterexample:
  "end' (last (segments \<lparr>text' = '' hello'', segments = [sampleSegment 0 0 10 '' hello''], language = ''en''\<rparr>)) = 10 \<and>
   start (segments \<lparr>text' = ''world'', segments = [sampleSegment 0 0 2 ''world''], language = ''en''\<rparr> ! 0) = 0 \<and>
   end' (segments \<lparr>text' = ''world'', segments = [sampleSegment 0 0 2 ''world''], language = ''en''\<rparr> ! 0) = 2 \<and>
   combineTranscriptions id
     [\<lparr>text' = '' hello'', segments = [sampleSegment 0 0 10 '' hello''], language = ''en''\<rparr>,
      \<lparr>text' = ''world'', segments = [sampleSegment 0 0 2 ''world''], language = ''en''\<rparr>]
     = Inr \<lparr>text' = ''hello world'',
            segments = [sampleSegment 0 0 10 '' hello'', sampleSegment 0 10 12 ''world''],
            language = ''en''\<rparr> \<and>
   ''hello world'' \<noteq> '' hello'' @ '' '' @ ''world''"
  by (simp add: combineTranscriptions_def combineStep_def Let_def sampleSegment_def trim_def
        isWhiteSpace_def)

text \<open>
  C1, amended. When chunk A's last segment ends at 10 and chunk B has, at position \<open>k\<close>,
  a segment from 0 to 2, merging A and B puts at position \<open>length A + k\<close> that segment
  with start 10 and end 12 (10 and 12 being doubles, the sums 0 + 10 and 2 + 10 are not
  rounded), and the merged text is A's text, one space and B's text with the white space
  at both ends removed. It is exactly A's text, one space and B's text when A's text does
  not begin and B's text does not end with white space (neither being empty).
\<close>

theorem two_chunk_merge:
  assumes "segments A \<noteq> []" and "end' (last (segments A)) = 10"
      and "k < length (segments B)"
      and "start (segments B ! k) = 0" and "end' (segments B ! k) = 2"
      and "isDouble toDouble 10" and "isDouble toDouble 12"
  shows "\<exists>c. combineTranscriptions toDouble [A, B] = Inr c \<and>
             segments c ! (length (segments A) + k) = (segments B ! k)\<lparr>start := 10, end' := 12\<rparr> \<and>
             text' c = trim (text' A @ '' '' @ text' B) \<and>
             (text' A \<noteq> [] \<and> \<not> isWhiteSpace (hd (text' A)) \<and>
              text' B \<noteq> [] \<and> \<not> isWhiteSpace (last (text' B))
                \<longrightarrow> text' c = text' A @ '' '' @ text' B)"
proof -
  let ?c = "\<lparr>text' = trim (text' A @ '' '' @ text' B),
            segments = map (\<lambda>s. s\<lparr>start := toDouble (start s + 0),
                                   end' := toDouble (end' s + 0)\<rparr>) (segments A)
                       @ map (\<lambda>s. s\<lparr>start := toDouble (start s + 10),
                                     end' := toDouble (end' s + 10)\<rparr>) (segments B),
            language = language A\<rparr>"
  have eq: "combineTranscriptions toDouble [A, B] = Inr ?c"
    using assms(1,2) by (simp add: combineTranscriptions_def combineStep_def Let_def last_conv_nth)
  have seg: "segments ?c ! (length (segments A) + k) = (segments B ! k)\<lparr>start := 10, end' := 12\<rparr>"
    using assms(3-7) by (simp add: nth_append isDouble_def)
  have keep: "trim (text' A @ '' '' @ text' B) = text' A @ '' '' @ text' B"
    if "text' A \<noteq> []" "\<not> isWhiteSpace (hd (text' A))" "text' B \<noteq> []" "\<not> isWhiteSpace (last (text' B))"
    using that by (intro trim_id) simp_all
  show ?thesis using eq seg keep by auto
qed

theorem two_chunk_merge_witness:
  "segments \<lparr>text' = ''hello'', segments = [sampleSegment 0 0 10 ''hello''], language = ''en''\<rparr> \<noteq> [] \<and>
   end' (last (segments \<lparr>text' = ''hello'', segments = [sampleSegment 0 0 10 ''hello''], language = ''en''\<rparr>)) = 10 \<and>
   0 < length (segments \<lparr>text' = ''world'', segments = [sampleSegment 0 0 2 ''world''], language = ''en''\<rparr>) \<and>
   start (segments \<lparr>text' = ''world'', segments = [sampleSegment 0 0 2 ''world''], language = ''en''\<rparr> ! 0) = 0 \<and>
   end' (segments \<lparr>text' = ''world'', segments = [sampleSegment 0 0 2 ''world''], language = ''en''\<rparr> ! 0) = 2 \<and>
   isDouble id 10 \<and> isDouble id 12 \<and>
   (\<exists>c. combineTranscriptions id
          [\<lparr>text' = ''hello'', segments = [sampleSegment 0 0 10 ''hello''], language = ''en''\<rparr>,
           \<lparr>text' = ''world'', segments = [sampleSegment 0 0 2 ''world''], language = ''en''\<rparr>] = Inr c \<and>
        segments c ! 1 = sampleSegment 0 10 12 ''world'' \<and>
        text' c = ''hello world'')"
  using two_chunk_merge
          [where A = "\<lparr>text' = ''hello'', segments = [sampleSegment 0 0 10 ''hello''], language = ''en''\<rparr>"
             and k = 0
             and B = "\<lparr>text' = ''world'', segments = [sampleSegment 0 0 2 ''world''], language = ''en''\<rparr>"
             and toDouble = id]
  by (auto simp: sampleSegment_def isWhiteSpace_def isDouble_def)

section \<open>Properties of the transcription action\<close>

text \<open>The loop attempts every chunk from \<open>i\<close> on, in order, whatever the outcomes are.\<close>

lemma transcribeLoop_char:
  "transcribeLoop create pa i rs es cs =
     (rs @ successes create pa [i..<length (chunks pa)],
      es @ failures create pa [i..<length (chunks pa)],
      cs @ providerCalls pa [i..<length (chunks pa)])"
proof (induction create pa i rs es cs rule: transcribeLoop.induct)
  case (1 create pa i rs es cs)
  show ?case
  proof (cases "i < length (chunks pa)")
    case False
    then show ?thesis
      by (subst transcribeLoop.simps) (simp add: successes_def failures_def providerCalls_def)
  next
    case True
    then have upt: "[i..<length (chunks pa)] = i # [i + 1..<length (chunks pa)]"
      by (simp add: upt_conv_Cons)
    show ?thesis
    proof (cases "attempt create pa i")
      case (Inr r)
      then have "transcribeAudio create (chunks pa ! i)
                   (''chunk_'' @ toString i @ ''_'' @ fileName pa) = Inr r"
        by (simp add: attempt_def chunkName_def)
      from "1.IH"(2) [OF refl True refl refl refl this] this True Inr
      show ?thesis
        by (subst transcribeLoop.simps)
           (simp add: upt successes_def failures_def providerCalls_def chunkName_def Let_def)
    next
      case (Inl e)
      then have "transcribeAudio create (chunks pa ! i)
                   (''chunk_'' @ toString i @ ''_'' @ fileName pa) = Inl e"
        by (simp add: attempt_def chunkName_def)
      from "1.IH"(1) [OF refl True refl refl refl this] this True Inl
      show ?thesis
        by (subst transcribeLoop.simps)
           (simp add: upt successes_def failures_def providerCalls_def chunkName_def
              failureMessage_def Let_def)
    qed
  qed
qed

lemma caught_fields: "success (caught e) = None" "transcription (caught e) = None"
  by (simp_all add: caught_def)

lemma processTranscription_success_inv:
  assumes "success (fst (processTranscription toDouble env file uid)) \<noteq> None"
  shows "\<exists>u team pa. getUserWithTeam env uid = Inr (Some u) \<and> teamId u = Some team \<and> team \<noteq> 0 \<and>
           processAudioFile file = Inr pa \<and>
           successes (groq_create env) pa [0..<length (chunks pa)] \<noteq> []"
  using assms
  by (auto simp: processTranscription_def transcribeLoop_char caught_fields
           split: sum.splits option.splits if_splits)

lemma processTranscription_none_succeeded:
  assumes "getUserWithTeam env uid = Inr (Some u)" and "teamId u = Some team" and "team \<noteq> 0"
      and "processAudioFile file = Inr pa"
      and "successes (groq_create env) pa [0..<length (chunks pa)] = []"
  shows "processTranscription toDouble env file uid =
           (caught (Error ''Failed to transcribe any part of the audio file''),
            providerCalls pa [0..<length (chunks pa)])"
  using assms by (simp add: processTranscription_def transcribeLoop_char)

lemma processTranscription_persist:
  fixes env :: "'row Collaborators"
  assumes "getUserWithTeam env uid = Inr (Some u)" and "teamId u = Some team" and "team \<noteq> 0"
      and "processAudioFile file = Inr pa"
      and "successes (groq_create env) pa [0..<length (chunks pa)] = rs" and "rs \<noteq> []"
      and "failures (groq_create env) pa [0..<length (chunks pa)] = es"
  shows "\<exists>merged d.
           combineTranscriptions toDouble rs = Inr merged \<and>
           snd (processTranscription toDouble env file uid) = providerCalls pa [0..<length (chunks pa)] @ [StoreCall d] \<and>
           data_teamId d = team \<and> userId d = uid \<and> data_fileName d = fileName pa \<and>
           originalText d = text' merged \<and>
           data_segments d = map (\<lambda>segment. segment\<lparr>start := toFixed3 toDouble (start segment),
                                                      end' := toFixed3 toDouble (end' segment)\<rparr>) (segments merged) \<and>
           duration d = Math_round (if segments merged = [] then 0 else Math_max (map end' (segments merged))) \<and>
           data_language d = language merged \<and> data_fileType d = fileType pa \<and>
           fileSize d = totalSize pa \<and>
           status d = (if es = [] then ''complete'' else ''partial'') \<and>
           errorLog d = (if es = [] then None else Some (join es)) \<and>
           fst (processTranscription toDouble env file uid) =
             (case saveTranscription env d of
                Inl e \<Rightarrow> caught e
              | Inr row \<Rightarrow>
                  \<lparr>error = (if es = [] then None else Some (join es)),
                   success = Some (if es = [] then ''Transcription completed successfully''
                                   else ''Transcription completed with some errors''),
                   transcription = Some row\<rparr>)"
proof -
  obtain merged where m: "combineTranscriptions toDouble rs = Inr merged"
    using combine_total [OF assms(6)] by blast
  show ?thesis
    using assms m
    by (cases "segments merged = []")
       (auto simp: processTranscription_def transcribeLoop_char Let_def split: sum.splits)
qed

lemma toString_small:
  "toString 0 = ''0''" "toString 1 = ''1''" "toString (Suc 0) = ''1''" "toString 2 = ''2''"
  "toString (Suc (Suc 0)) = ''2''"
  by (simp_all add: toString.simps digit_def)

lemma attempt_Inl:
  "groq_create env (blobToFile (chunks pa ! i) (''chunk_'' @ toString i @ ''_'' @ fileName pa)) = Inl e
   \<Longrightarrow> attempt (groq_create env) pa i = Inl (Error (messageOr ''Unknown transcription error'' e))"
  by (simp add: attempt_def transcribeAudio_def chunkName_def)

lemma attempt_Inr:
  "groq_create env (blobToFile (chunks pa ! i) (''chunk_'' @ toString i @ ''_'' @ fileName pa)) = Inr r
   \<Longrightarrow> attempt (groq_create env) pa i = Inr r"
  by (simp add: attempt_def transcribeAudio_def chunkName_def)

lemma successes_all_failed:
  assumes "\<forall>i \<in> set ks. \<exists>e. attempt create pa i = Inl e"
  shows "successes create pa ks = []"
  using assms by (induction ks) (auto simp: successes_def)

lemma Math_max_Max: "xs \<noteq> [] \<Longrightarrow> Math_max xs = Max (set xs)"
proof (cases xs)
  case Nil
  assume "xs \<noteq> []"
  with Nil show ?thesis by simp
next
  case (Cons a list)
  then show ?thesis using Max.set_eq_fold [of a list] by simp
qed

lemma processAudioFile_zeroFile_3:
  "processAudioFile (zeroFile 3) =
     Inr \<lparr>chunks = [\<lparr>bytes = replicate 3 0, type' = ''audio/mpeg''\<rparr>], fileName = ''a.mp3'',
          fileType = ''audio/mpeg'', totalSize = 3\<rparr>"
  by (simp add: processAudioFile_def zeroFile_def size'_def MAX_FILE_SIZE_def GROQ_SIZE_LIMIT_def
        Blob.truncate_def)

lemma splitLoop_40MiB_plus_1:
  "splitLoop (replicate 41943041 0) ty 0 [] =
     [\<lparr>bytes = replicate 20971520 0, type' = ty\<rparr>, \<lparr>bytes = replicate 20971520 0, type' = ty\<rparr>,
      \<lparr>bytes = replicate 1 0, type' = ty\<rparr>]"
  by (simp add: splitLoop.simps [of "replicate 41943041 0"] MAX_CHUNK_SIZE_def slice_def)

lemma processAudioFile_zeroFile_40MiB_plus_1:
  "processAudioFile (zeroFile 41943041) =
     Inr \<lparr>chunks = [\<lparr>bytes = replicate 20971520 0, type' = ''audio/mpeg''\<rparr>,
                    \<lparr>bytes = replicate 20971520 0, type' = ''audio/mpeg''\<rparr>,
                    \<lparr>bytes = replicate 1 0, type' = ''audio/mpeg''\<rparr>],
          fileName = ''a.mp3'', fileType = ''audio/mpeg'', totalSize = 41943041\<rparr>"
  by (simp add: processAudioFile_def zeroFile_def size'_def MAX_FILE_SIZE_def GROQ_SIZE_LIMIT_def
        splitLoop_40MiB_plus_1)

text \<open>
  C7. When the user has a team, the payload is chunked and the provider call fails for
  every chunk, every chunk is still attempted, the response carries the error
  \<^verbatim>\<open>'Failed to transcribe any part of the audio file'\<close> and no record, and the store is
  never called. The merger itself, given no transcript, throws
  \<^verbatim>\<open>'No transcriptions to combine'\<close>. These two errors are what the specification calls
  NoTranscriptsAvailable.
\<close>

theorem every_chunk_fails:
  assumes "getUserWithTeam env uid = Inr (Some u)" and "teamId u = Some team" and "team \<noteq> 0"
      and "processAudioFile file = Inr pa"
      and "\<forall>i < length (chunks pa). \<exists>e.
             groq_create env (blobToFile (chunks pa ! i) (''chunk_'' @ toString i @ ''_'' @ fileName pa)) = Inl e"
  shows "fst (processTranscription toDouble env file uid) =
           \<lparr>error = Some ''Failed to transcribe any part of the audio file'',
            success = None, transcription = None\<rparr> \<and>
         snd (processTranscription toDouble env file uid) =
           map (\<lambda>i. ProviderCall (blobToFile (chunks pa ! i) (''chunk_'' @ toString i @ ''_'' @ fileName pa)))
             [0..<length (chunks pa)] \<and>
         (\<forall>d. StoreCall d \<notin> set (snd (processTranscription toDouble env file uid))) \<and>
         combineTranscriptions toDouble [] = Inl (Error ''No transcriptions to combine'')"
proof -
  have "\<forall>i \<in> set [0..<length (chunks pa)]. \<exists>e. attempt (groq_create env) pa i = Inl e"
    using assms(5) attempt_Inl by fastforce
  then have "successes (groq_create env) pa [0..<length (chunks pa)] = []"
    by (rule successes_all_failed)
  then have run: "processTranscription toDouble env file uid =
                    (caught (Error ''Failed to transcribe any part of the audio file''),
                     providerCalls pa [0..<length (chunks pa)])"
    using assms(1-4) by (rule processTranscription_none_succeeded [rotated -1])
  show ?thesis
    unfolding run by (auto simp: caught_def providerCalls_def chunkName_def combineTranscriptions_def)
qed

theorem every_chunk_fails_witness:
  "processAudioFile (zeroFile 3) =
     Inr \<lparr>chunks = [\<lparr>bytes = replicate 3 0, type' = ''audio/mpeg''\<rparr>], fileName = ''a.mp3'',
          fileType = ''audio/mpeg'', totalSize = 3\<rparr> \<and>
   groq_create (sampleCollaborators (\<lambda>n. True) 10)
     (blobToFile \<lparr>bytes = replicate 3 0, type' = ''audio/mpeg''\<rparr> ''chunk_0_a.mp3'')
     = Inl (Error ''rate limit'') \<and>
   processTranscription id (sampleCollaborators (\<lambda>n. True) 10) (zeroFile 3) 7 =
     (\<lparr>error = Some ''Failed to transcribe any part of the audio file'', success = None,
       transcription = None\<rparr>,
      [ProviderCall \<lparr>bytes = replicate 3 0, type' = ''audio/mpeg'', name = ''chunk_0_a.mp3''\<rparr>])"
proof -
  let ?env = "sampleCollaborators (\<lambda>n. True) 10"
  let ?pa = "\<lparr>chunks = [\<lparr>bytes = replicate 3 0, type' = ''audio/mpeg''\<rparr>], fileName = ''a.mp3'',
             fileType = ''audio/mpeg'', totalSize = 3\<rparr>"
  have h1: "getUserWithTeam ?env 7 = Inr (Some \<lparr>teamId = Some 1\<rparr>)"
    by (simp add: sampleCollaborators_def)
  have h2: "teamId \<lparr>teamId = Some 1\<rparr> = Some 1" by simp
  have h3: "(1::int) \<noteq> 0" by simp
  have h4: "processAudioFile (zeroFile 3) = Inr ?pa" by (rule processAudioFile_zeroFile_3)
  have h5: "\<forall>i < length (chunks ?pa). \<exists>e.
              groq_create ?env (blobToFile (chunks ?pa ! i) (''chunk_'' @ toString i @ ''_'' @ fileName ?pa)) = Inl e"
    by (simp add: sampleCollaborators_def)
  have g: "groq_create ?env (blobToFile \<lparr>bytes = replicate 3 0, type' = ''audio/mpeg''\<rparr> ''chunk_0_a.mp3'')
             = Inl (Error ''rate limit'')"
    by (simp add: sampleCollaborators_def)
  from every_chunk_fails [OF h1 h2 h3 h4 h5, where toDouble = id] h4 g
  show ?thesis by (simp add: prod_eq_iff toString_small blobToFile_def)
qed

text \<open>
  C6. When the payload gives three chunks and the provider call fails for the second one
  only, all three chunks are attempted in order, the merger is given the transcripts of
  chunk 1 and chunk 3 in that order, and the record handed to the store has the merged
  text, segments and language, the status \<^verbatim>\<open>'partial'\<close> and the error log
  \<^verbatim>\<open>'Failed to transcribe segment 2: '\<close> followed by the provider's message. When the
  store returns, the response carries the same message, the success text for a run with
  errors, and the stored row.
\<close>

theorem second_of_three_chunks_fails:
  assumes "getUserWithTeam env uid = Inr (Some u)" and "teamId u = Some team" and "team \<noteq> 0"
      and "processAudioFile file = Inr pa" and "chunks pa = [c1, c2, c3]"
      and "groq_create env (blobToFile c1 (''chunk_0_'' @ fileName pa)) = Inr r1"
      and "groq_create env (blobToFile c2 (''chunk_1_'' @ fileName pa)) = Inl e"
      and "groq_create env (blobToFile c3 (''chunk_2_'' @ fileName pa)) = Inr r3"
  shows "\<exists>merged d.
           combineTranscriptions toDouble [r1, r3] = Inr merged \<and>
           snd (processTranscription toDouble env file uid) =
             [ProviderCall (blobToFile c1 (''chunk_0_'' @ fileName pa)),
              ProviderCall (blobToFile c2 (''chunk_1_'' @ fileName pa)),
              ProviderCall (blobToFile c3 (''chunk_2_'' @ fileName pa)),
              StoreCall d] \<and>
           originalText d = text' merged \<and>
           data_segments d = map (\<lambda>segment. segment\<lparr>start := toFixed3 toDouble (start segment),
                                                      end' := toFixed3 toDouble (end' segment)\<rparr>) (segments merged) \<and>
           data_language d = language merged \<and>
           status d = ''partial'' \<and>
           errorLog d = Some (''Failed to transcribe segment 2: ''
                               @ messageOr ''Unknown transcription error'' e) \<and>
           fst (processTranscription toDouble env file uid) =
             (case saveTranscription env d of
                Inl x \<Rightarrow> caught x
              | Inr row \<Rightarrow>
                  \<lparr>error = Some (''Failed to transcribe segment 2: ''
                                   @ messageOr ''Unknown transcription error'' e),
                   success = Some ''Transcription completed with some errors'',
                   transcription = Some row\<rparr>)"
proof -
  have n: "[0..<length (chunks pa)] = [0, 1, 2]"
    by (simp add: assms(5) upt_conv_Cons)
  have a0: "attempt (groq_create env) pa 0 = Inr r1"
    using assms(5,6) by (intro attempt_Inr) (simp add: toString_small)
  have a1: "attempt (groq_create env) pa (Suc 0) = Inl (Error (messageOr ''Unknown transcription error'' e))"
    using assms(5,7) by (intro attempt_Inl) (simp add: toString_small)
  have a2: "attempt (groq_create env) pa 2 = Inr r3"
    using assms(5,8) by (intro attempt_Inr) (simp add: toString_small)
  have rs: "successes (groq_create env) pa [0..<length (chunks pa)] = [r1, r3]"
    by (simp add: n successes_def a0 a1 a2)
  have es: "failures (groq_create env) pa [0..<length (chunks pa)] =
              [''Failed to transcribe segment 2: '' @ messageOr ''Unknown transcription error'' e]"
    by (simp add: n failures_def a0 a1 a2 failureMessage_def toString_small)
  have cs: "providerCalls pa [0..<length (chunks pa)] =
              [ProviderCall (blobToFile c1 (''chunk_0_'' @ fileName pa)),
               ProviderCall (blobToFile c2 (''chunk_1_'' @ fileName pa)),
               ProviderCall (blobToFile c3 (''chunk_2_'' @ fileName pa))]"
    by (simp add: n providerCalls_def chunkName_def assms(5) toString_small)
  from processTranscription_persist [where toDouble = toDouble, OF assms(1-4) rs _ es]
  show ?thesis unfolding cs by (auto split: sum.splits)
qed

theorem second_of_three_chunks_fails_witness:
  "processAudioFile (zeroFile 41943041) =
     Inr \<lparr>chunks = [\<lparr>bytes = replicate 20971520 0, type' = ''audio/mpeg''\<rparr>,
                    \<lparr>bytes = replicate 20971520 0, type' = ''audio/mpeg''\<rparr>,
                    \<lparr>bytes = replicate 1 0, type' = ''audio/mpeg''\<rparr>],
          fileName = ''a.mp3'', fileType = ''audio/mpeg'', totalSize = 41943041\<rparr> \<and>
   (\<exists>d. snd (processTranscription id (sampleCollaborators (\<lambda>n. n = ''chunk_1_a.mp3'') 10)
              (zeroFile 41943041) 7) =
           [ProviderCall \<lparr>bytes = replicate 20971520 0, type' = ''audio/mpeg'', name = ''chunk_0_a.mp3''\<rparr>,
            ProviderCall \<lparr>bytes = replicate 20971520 0, type' = ''audio/mpeg'', name = ''chunk_1_a.mp3''\<rparr>,
            ProviderCall \<lparr>bytes = replicate 1 0, type' = ''audio/mpeg'', name = ''chunk_2_a.mp3''\<rparr>,
            StoreCall d] \<and>
        originalText d = ''chunk_0_a.mp3 chunk_2_a.mp3'' \<and>
        map start (data_segments d) = [0, 10] \<and> map end' (data_segments d) = [10, 20] \<and>
        status d = ''partial'' \<and>
        errorLog d = Some ''Failed to transcribe segment 2: rate limit'' \<and>
        fst (processTranscription id (sampleCollaborators (\<lambda>n. n = ''chunk_1_a.mp3'') 10)
              (zeroFile 41943041) 7) =
          \<lparr>error = Some ''Failed to transcribe segment 2: rate limit'',
           success = Some ''Transcription completed with some errors'',
           transcription = Some d\<rparr>)"
proof -
  let ?env = "sampleCollaborators (\<lambda>n. n = ''chunk_1_a.mp3'') 10"
  let ?c1 = "\<lparr>bytes = replicate 20971520 0, type' = ''audio/mpeg''\<rparr>"
  let ?c3 = "\<lparr>bytes = replicate 1 0, type' = ''audio/mpeg''\<rparr>"
  let ?pa = "\<lparr>chunks = [?c1, ?c1, ?c3], fileName = ''a.mp3'', fileType = ''audio/mpeg'',
             totalSize = 41943041\<rparr>"
  have h1: "getUserWithTeam ?env 7 = Inr (Some \<lparr>teamId = Some 1\<rparr>)"
    by (simp add: sampleCollaborators_def)
  have h2: "teamId \<lparr>teamId = Some 1\<rparr> = Some 1" by simp
  have h3: "(1::int) \<noteq> 0" by simp
  have h4: "processAudioFile (zeroFile 41943041) = Inr ?pa"
    by (rule processAudioFile_zeroFile_40MiB_plus_1)
  have h5: "chunks ?pa = [?c1, ?c1, ?c3]" by simp
  have h6: "groq_create ?env (blobToFile ?c1 (''chunk_0_'' @ fileName ?pa))
              = Inr (sampleResponse ''chunk_0_a.mp3'' 10)"
    by (simp add: sampleCollaborators_def blobToFile_def)
  have h7: "groq_create ?env (blobToFile ?c1 (''chunk_1_'' @ fileName ?pa)) = Inl (Error ''rate limit'')"
    by (simp add: sampleCollaborators_def blobToFile_def)
  have h8: "groq_create ?env (blobToFile ?c3 (''chunk_2_'' @ fileName ?pa))
              = Inr (sampleResponse ''chunk_2_a.mp3'' 10)"
    by (simp add: sampleCollaborators_def blobToFile_def)
  have m: "combineTranscriptions id [sampleResponse ''chunk_0_a.mp3'' 10, sampleResponse ''chunk_2_a.mp3'' 10]
             = Inr \<lparr>text' = ''chunk_0_a.mp3 chunk_2_a.mp3'',
                    segments = [sampleSegment 0 0 10 ''chunk_0_a.mp3'', sampleSegment 0 10 20 ''chunk_2_a.mp3''],
                    language = ''en''\<rparr>"
    by (simp add: combineTranscriptions_def combineStep_def Let_def sampleResponse_def
          sampleSegment_def trim_def isWhiteSpace_def)
  have s: "\<And>d. saveTranscription ?env d = Inr d"
    by (simp add: sampleCollaborators_def)
  have f: "toFixed3 id 0 = 0" "toFixed3 id 10 = 10" "toFixed3 id 20 = 20"
    by (simp_all add: toFixed3_def)
  from second_of_three_chunks_fails [OF h1 h2 h3 h4 h5 h6 h7 h8, where toDouble = id] h4
  show ?thesis
    by (auto simp: m s f blobToFile_def sampleSegment_def)
qed

text \<open>
  C8. In every run that ends with a success text, exactly one record is handed to the
  store, after the provider calls; its duration is 0 when the merged transcript has no
  segment, and otherwise the greatest end time of the merged segments rounded to the
  nearest integer (so at most one half away from it; the concrete input below has the
  tie 9.5, rounded up to 10).
\<close>

theorem persisted_duration:
  assumes "success (fst (processTranscription toDouble env file uid)) \<noteq> None"
  shows "\<exists>pa rs es cs merged d.
           processAudioFile file = Inr pa \<and>
           transcribeLoop (groq_create env) pa 0 [] [] [] = (rs, es, cs) \<and>
           combineTranscriptions toDouble rs = Inr merged \<and>
           snd (processTranscription toDouble env file uid) = cs @ [StoreCall d] \<and>
           duration d = (if segments merged = [] then 0
                         else round (Max (end' ` set (segments merged)))) \<and>
           (segments merged \<noteq> [] \<longrightarrow>
              \<bar>real_of_int (duration d) - Max (end' ` set (segments merged))\<bar> \<le> 1 / 2)"
proof -
  obtain u team pa where h:
      "getUserWithTeam env uid = Inr (Some u)" "teamId u = Some team" "team \<noteq> 0"
      "processAudioFile file = Inr pa"
      "successes (groq_create env) pa [0..<length (chunks pa)] \<noteq> []"
    using processTranscription_success_inv [OF assms] by blast
  obtain merged d where md:
      "combineTranscriptions toDouble (successes (groq_create env) pa [0..<length (chunks pa)]) = Inr merged"
      "snd (processTranscription toDouble env file uid) = providerCalls pa [0..<length (chunks pa)] @ [StoreCall d]"
      "duration d = Math_round (if segments merged = [] then 0 else Math_max (map end' (segments merged)))"
    using processTranscription_persist [where toDouble = toDouble, OF h(1-4) refl h(5) refl] by blast
  have dur: "duration d = (if segments merged = [] then 0 else round (Max (end' ` set (segments merged))))"
    by (simp add: md(3) Math_round_def round_def Math_max_Max)
  have near: "\<bar>real_of_int (duration d) - Max (end' ` set (segments merged))\<bar> \<le> 1 / 2"
    if "segments merged \<noteq> []"
    using that dur of_int_round_abs_le [of "Max (end' ` set (segments merged))"] by simp
  show ?thesis
    using h(4) md(1,2) dur near by (simp add: transcribeLoop_char)
qed

theorem persisted_duration_witness:
  "success (fst (processTranscription id (sampleCollaborators (\<lambda>n. False) (19 / 2)) (zeroFile 3) 7))
     = Some ''Transcription completed successfully'' \<and>
   (\<exists>cs d. snd (processTranscription id (sampleCollaborators (\<lambda>n. False) (19 / 2)) (zeroFile 3) 7)
             = cs @ [StoreCall d] \<and>
           duration d = 10)"
proof -
  let ?env = "sampleCollaborators (\<lambda>n. False) (19 / 2)"
  let ?pa = "\<lparr>chunks = [\<lparr>bytes = replicate 3 0, type' = ''audio/mpeg''\<rparr>], fileName = ''a.mp3'',
             fileType = ''audio/mpeg'', totalSize = 3\<rparr>"
  have loop: "transcribeLoop (groq_create ?env) ?pa 0 [] [] [] =
                ([sampleResponse ''chunk_0_a.mp3'' (19 / 2)], [],
                 [ProviderCall \<lparr>bytes = replicate 3 0, type' = ''audio/mpeg'', name = ''chunk_0_a.mp3''\<rparr>])"
    by (simp add: transcribeLoop_char successes_def failures_def providerCalls_def attempt_def
          chunkName_def transcribeAudio_def blobToFile_def sampleCollaborators_def toString_small)
  have ok: "success (fst (processTranscription id ?env (zeroFile 3) 7))
              = Some ''Transcription completed successfully''"
  proof -
    have u: "getUserWithTeam ?env 7 = Inr (Some \<lparr>teamId = Some 1\<rparr>)"
      by (simp add: sampleCollaborators_def)
    have sv: "\<And>d. saveTranscription ?env d = Inr d"
      by (simp add: sampleCollaborators_def)
    show ?thesis
      by (simp add: processTranscription_def processAudioFile_zeroFile_3 loop u sv
            combineTranscriptions_def Let_def)
  qed
  then have h: "success (fst (processTranscription id ?env (zeroFile 3) 7)) \<noteq> None" by simp
  obtain pa rs es cs merged d where r:
      "processAudioFile (zeroFile 3) = Inr pa"
      "transcribeLoop (groq_create ?env) pa 0 [] [] [] = (rs, es, cs)"
      "combineTranscriptions id rs = Inr merged"
      "snd (processTranscription id ?env (zeroFile 3) 7) = cs @ [StoreCall d]"
      "duration d = (if segments merged = [] then 0 else round (Max (end' ` set (segments merged))))"
    using persisted_duration [OF h] by blast
  have "pa = ?pa" using r(1) by (simp add: processAudioFile_zeroFile_3)
  then have "rs = [sampleResponse ''chunk_0_a.mp3'' (19 / 2)]" using r(2) loop by simp
  then have "merged = sampleResponse ''chunk_0_a.mp3'' (19 / 2)"
    using r(3) by (simp add: combineTranscriptions_def)
  then have "duration d = 10"
    using r(5) by (simp add: sampleResponse_def sampleSegment_def round_def)
  then show ?thesis using ok r(4) by blast
qed

end
